theory Spec2Isabelle
  imports Main "HOL-Library.Multiset" "HOL-Library.Sublist"
begin

section \<open>Python values and failures\<close>

text \<open>
  The script \<^verbatim>\<open>model/train_nmt.py\<close> is embedded function by function. Every
  exception the Python code can raise inside the modelled fragment is a value of
  \<open>py_error\<close>, and a function that may raise returns \<open>py_error + 'a\<close>.
\<close>

datatype py_error = AssertionError | KeyError | IndexError | ValueError

definition bind_err :: "py_error + 'a \<Rightarrow> ('a \<Rightarrow> py_error + 'b) \<Rightarrow> py_error + 'b" where
  "bind_err m f = (case m of Inl e \<Rightarrow> Inl e | Inr x \<Rightarrow> f x)"

text \<open>Python slices \<^verbatim>\<open>xs[:k]\<close>, \<^verbatim>\<open>xs[k:]\<close> and \<^verbatim>\<open>xs[lo:hi]\<close>: a negative bound counts
  from the end, and every bound is clipped to the list.\<close>

definition slice_bound :: "nat \<Rightarrow> int \<Rightarrow> nat" where
  "slice_bound n k = (if k < 0 then nat (int n + k) else min (nat k) n)"

definition slice_to :: "int \<Rightarrow> 'a list \<Rightarrow> 'a list" where
  "slice_to k xs = take (slice_bound (length xs) k) xs"

definition slice_from :: "int \<Rightarrow> 'a list \<Rightarrow> 'a list" where
  "slice_from k xs = drop (slice_bound (length xs) k) xs"

definition py_slice :: "int \<Rightarrow> int \<Rightarrow> 'a list \<Rightarrow> 'a list" where
  "py_slice lo hi xs =
     take (slice_bound (length xs) hi - slice_bound (length xs) lo)
       (drop (slice_bound (length xs) lo) xs)"

text \<open>The comprehension \<^verbatim>\<open>[xs[ti] for ti in inds]\<close> over non-negative indices: the
  first index out of range raises \<^verbatim>\<open>IndexError\<close>.\<close>

fun index_all :: "'a list \<Rightarrow> nat list \<Rightarrow> py_error + 'a list" where
  "index_all xs [] = Inr []"
| "index_all xs (i # inds) =
     (if i < length xs
      then (case index_all xs inds of Inl e \<Rightarrow> Inl e | Inr ys \<Rightarrow> Inr (xs ! i # ys))
      else Inl IndexError)"

text \<open>\<^verbatim>\<open>str.split()\<close> without arguments: the maximal runs of non-whitespace characters.
  It is the measure of "whitespace-separated words".\<close>

definition is_space :: "char \<Rightarrow> bool" where
  "is_space c \<longleftrightarrow>
     c \<in> set [CHR '' '', CHR 0x09, CHR 0x0A, CHR 0x0B, CHR 0x0C, CHR 0x0D,
              CHR 0x1C, CHR 0x1D, CHR 0x1E, CHR 0x1F]"

fun split_acc :: "string \<Rightarrow> string \<Rightarrow> string list" where
  "split_acc cur [] = (if cur = [] then [] else [cur])"
| "split_acc cur (c # cs) =
     (if is_space c
      then (if cur = [] then split_acc [] cs else cur # split_acc [] cs)
      else split_acc (cur @ [c]) cs)"

definition py_split :: "string \<Rightarrow> string list" where
  "py_split s = split_acc [] s"

section \<open>get_data\<close>

text \<open>
  Line 24 of the script, the body of the list comprehension over the French corpus:
  \<^verbatim>\<open>'sos ' + sent[:-1] + 'eos .' if sent.endswith('.') else 'sos ' + sent + ' eos .'\<close>
\<close>

definition endswith_dot :: "string \<Rightarrow> bool" where
  "endswith_dot sent \<longleftrightarrow> sent \<noteq> [] \<and> last sent = CHR ''.''"

definition wrap_fr :: "string \<Rightarrow> string" where
  "wrap_fr sent =
     (if endswith_dot sent then ''sos '' @ butlast sent @ ''eos .''
      else ''sos '' @ sent @ '' eos .'')"

text \<open>
  \<^verbatim>\<open>get_data(train_size, random_seed)\<close>. The two corpora are what \<^verbatim>\<open>read_data\<close> returned
  (\<open>en_text\<close>, \<open>fr_text\<close>); \<open>shuffle seed\<close> stands for \<^verbatim>\<open>np.random.seed(seed)\<close> followed by
  \<^verbatim>\<open>np.random.shuffle\<close>, applied to \<^verbatim>\<open>np.arange(len(en_text))\<close>.
\<close>

definition get_data ::
  "(int \<Rightarrow> nat list \<Rightarrow> nat list) \<Rightarrow> string list \<Rightarrow> string list \<Rightarrow> int \<Rightarrow> int \<Rightarrow>
     py_error + (string list \<times> string list \<times> string list \<times> string list)" where
  "get_data shuffle en_text fr_text_raw train_size random_seed =
     (let fr_text = map wrap_fr fr_text_raw;
          inds = shuffle random_seed [0..<length en_text];
          train_inds = slice_to train_size inds;
          test_inds = slice_from train_size inds
      in bind_err (index_all en_text train_inds) (\<lambda>tr_en_text.
         bind_err (index_all fr_text train_inds) (\<lambda>tr_fr_text.
         bind_err (index_all en_text test_inds) (\<lambda>ts_en_text.
         bind_err (index_all fr_text test_inds) (\<lambda>ts_fr_text.
         Inr (tr_en_text, tr_fr_text, ts_en_text, ts_fr_text))))))"

section \<open>infer_nmt\<close>

text \<open>
  Tensors are numpy arrays. Their element type \<open>'v\<close> is left open (the script uses
  floats), and an array is a scalar or a sequence of arrays of one dimension less.
  \<^verbatim>\<open>a.reshape(-1)\<close> and \<^verbatim>\<open>a.ravel()\<close> list the elements in row-major order.
\<close>

datatype 'v ndarray = Scalar 'v | Array "'v ndarray list"

fun ravel :: "'v ndarray \<Rightarrow> 'v list" where
  "ravel (Scalar v) = [v]"
| "ravel (Array xs) = concat (map ravel xs)"

text \<open>
  What \<^verbatim>\<open>infer_nmt\<close> takes from outside the script: the two Keras models, numpy's argmax,
  and the globals \<^verbatim>\<open>fr_tokenizer\<close> and \<^verbatim>\<open>fr_index2word\<close>.
  \<^item> \<open>en_onehot s\<close> is \<^verbatim>\<open>to_categorical(s, num_classes=en_vsize)\<close>;
  \<^item> \<open>fr_onehot w\<close> is
    \<^verbatim>\<open>np.expand_dims(to_categorical(sents2sequences(fr_tokenizer, [w], fr_vsize), num_classes=fr_vsize), 1)\<close>;
  \<^item> \<open>encoder_predict\<close> and \<open>decoder_predict\<close> are \<^verbatim>\<open>encoder_model.predict\<close> and
    \<^verbatim>\<open>decoder_model.predict\<close>;
  \<^item> \<open>argmax00 d\<close> is \<^verbatim>\<open>np.argmax(d, axis=-1)[0, 0]\<close>, an index and so never negative;
  \<^item> \<open>fr_index2word\<close> is the dictionary from word ids to words; a missing key raises
    \<^verbatim>\<open>KeyError\<close>.
\<close>

record 't nmt_env =
  en_onehot :: "nat ndarray \<Rightarrow> 't"
  fr_onehot :: "string \<Rightarrow> 't"
  encoder_predict :: "'t \<Rightarrow> 't \<times> 't"
  decoder_predict :: "'t \<Rightarrow> 't \<Rightarrow> 't \<Rightarrow> 't \<times> 't \<times> 't"
  argmax00 :: "'t \<Rightarrow> nat"
  fr_index2word :: "nat \<rightharpoonup> string"

text \<open>The variables the decode loop (lines 93 to 104) reads and assigns.\<close>

record 't decode_state =
  dec_state :: 't
  test_fr_onehot_seq :: 't
  attention_weights :: "(nat \<times> 't) list"
  fr_text :: string

datatype 't step_result =
    Continue "'t decode_state"
  | Break "'t decode_state"
  | Raise py_error

text \<open>One pass through the body of \<^verbatim>\<open>for i in range(20)\<close>.\<close>

definition decode_step :: "'t nmt_env \<Rightarrow> 't \<Rightarrow> 't decode_state \<Rightarrow> 't step_result" where
  "decode_step env enc_outs st =
     (case decoder_predict env enc_outs (dec_state st) (test_fr_onehot_seq st) of
        (dec_out, attention, dec_state') \<Rightarrow>
          (let dec_ind = argmax00 env dec_out in
           if dec_ind = 0 then Break (st\<lparr>dec_state := dec_state'\<rparr>)
           else (case fr_index2word env dec_ind of
                   None \<Rightarrow> Raise KeyError
                 | Some word \<Rightarrow>
                     Continue \<lparr>dec_state = dec_state',
                               test_fr_onehot_seq = fr_onehot env word,
                               attention_weights = attention_weights st @ [(dec_ind, attention)],
                               fr_text = fr_text st @ word @ '' ''\<rparr>)))"

text \<open>How the loop was left: the range ran out, \<^verbatim>\<open>break\<close> at loop index \<open>i\<close>, or an
  exception at loop index \<open>i\<close>.\<close>

datatype 't loop_exit =
    Exhausted "'t decode_state"
  | Broke nat "'t decode_state"
  | Raised nat py_error

fun decode_loop :: "'t nmt_env \<Rightarrow> 't \<Rightarrow> nat list \<Rightarrow> 't decode_state \<Rightarrow> 't loop_exit" where
  "decode_loop env enc_outs [] st = Exhausted st"
| "decode_loop env enc_outs (i # rest) st =
     (case decode_step env enc_outs st of
        Continue st' \<Rightarrow> decode_loop env enc_outs rest st'
      | Break st' \<Rightarrow> Broke i st'
      | Raise e \<Rightarrow> Raised i e)"

text \<open>Lines 85 to 92: the encoder pass and the initial values of the loop variables.\<close>

definition infer_init :: "'t nmt_env \<Rightarrow> nat ndarray \<Rightarrow> 't \<times> 't decode_state" where
  "infer_init env test_en_seq =
     (let test_fr_onehot = fr_onehot env ''sos'';
          test_en_onehot_seq = en_onehot env test_en_seq
      in case encoder_predict env test_en_onehot_seq of
           (enc_outs, enc_last_state) \<Rightarrow>
             (enc_outs,
              \<lparr>dec_state = enc_last_state, test_fr_onehot_seq = test_fr_onehot,
               attention_weights = [], fr_text = []\<rparr>))"

definition infer_nmt :: "'t nmt_env \<Rightarrow> nat ndarray \<Rightarrow> py_error + (string \<times> (nat \<times> 't) list)" where
  "infer_nmt env test_en_seq =
     (case infer_init env test_en_seq of
        (enc_outs, st0) \<Rightarrow>
          (case decode_loop env enc_outs [0..<20] st0 of
             Exhausted st \<Rightarrow> Inr (fr_text st, attention_weights st)
           | Broke i st \<Rightarrow> Inr (fr_text st, attention_weights st)
           | Raised i e \<Rightarrow> Inl e))"

text \<open>
  Notions for stating properties of the loop. \<open>predicted env enc_outs st\<close> is the
  token id the decoder predicts in state \<open>st\<close> and \<open>attended env enc_outs st\<close> the
  attention it returns with it. \<open>after_steps env enc_outs n st\<close> is the
  state after \<open>n\<close> passes through the loop body that reached its last line, if there
  are that many.
\<close>

definition predicted :: "'t nmt_env \<Rightarrow> 't \<Rightarrow> 't decode_state \<Rightarrow> nat" where
  "predicted env enc_outs st =
     argmax00 env (fst (decoder_predict env enc_outs (dec_state st) (test_fr_onehot_seq st)))"

definition attended :: "'t nmt_env \<Rightarrow> 't \<Rightarrow> 't decode_state \<Rightarrow> 't" where
  "attended env enc_outs st =
     fst (snd (decoder_predict env enc_outs (dec_state st) (test_fr_onehot_seq st)))"

fun after_steps :: "'t nmt_env \<Rightarrow> 't \<Rightarrow> nat \<Rightarrow> 't decode_state \<Rightarrow> 't decode_state option" where
  "after_steps env enc_outs 0 st = Some st"
| "after_steps env enc_outs (Suc n) st =
     (case decode_step env enc_outs st of
        Continue st' \<Rightarrow> after_steps env enc_outs n st'
      | Break st' \<Rightarrow> None
      | Raise e \<Rightarrow> None)"

text \<open>The vocabulary conditions: every non-zero id the decoder can predict is a key
  of \<open>fr_index2word\<close>, and the words of \<open>fr_index2word\<close> are non-empty and free of
  whitespace, as the tokens of a tokenizer are.\<close>

definition vocab_covers :: "'t nmt_env \<Rightarrow> bool" where
  "vocab_covers env \<longleftrightarrow> (\<forall>d. argmax00 env d \<noteq> 0 \<longrightarrow> fr_index2word env (argmax00 env d) \<noteq> None)"



section \<open>plot_attention_weights\<close>

text \<open>What the function hands to matplotlib: the matrix given to \<^verbatim>\<open>imshow\<close>, the tick
  positions and the tick labels.\<close>

record 'v heatmap =
  attention_mat :: "'v list list"
  xticks :: "nat list"
  yticks :: "nat list"
  xticklabels :: "string list"
  yticklabels :: "string list"

text \<open>The loop of lines 124 to 126, with its two accumulators.\<close>

fun collect_mats ::
  "(nat \<times> 'v ndarray) list \<Rightarrow> 'v list list \<times> nat list \<Rightarrow> 'v list list \<times> nat list" where
  "collect_mats [] (mats, dec_inputs) = (mats, dec_inputs)"
| "collect_mats ((dec_ind, attn) # rest) (mats, dec_inputs) =
     collect_mats rest (mats @ [ravel attn], dec_inputs @ [dec_ind])"

text \<open>\<^verbatim>\<open>np.array(mats)\<close> of a non-empty list of vectors is a matrix when the vectors
  have one length, and raises \<^verbatim>\<open>ValueError\<close> otherwise. \<^verbatim>\<open>np.transpose\<close> of a matrix
  with rows of length \<open>n\<close> has \<open>n\<close> rows, row \<open>i\<close> holding the \<open>i\<close>-th entries.\<close>

definition np_array :: "'v list list \<Rightarrow> py_error + 'v list list" where
  "np_array mats =
     (if list_all (\<lambda>m. length m = length (hd mats)) mats then Inr mats else Inl ValueError)"

definition np_transpose :: "'v list list \<Rightarrow> 'v list list" where
  "np_transpose rows = map (\<lambda>i. map (\<lambda>r. r ! i) rows) [0..<length (hd rows)]"

text \<open>\<^verbatim>\<open>[id2word[inp] if inp != 0 else "<Res>" for inp in inputs]\<close>\<close>

fun tick_labels :: "(nat \<rightharpoonup> string) \<Rightarrow> nat list \<Rightarrow> py_error + string list" where
  "tick_labels id2word [] = Inr []"
| "tick_labels id2word (inp # rest) =
     (if inp \<noteq> 0
      then (case id2word inp of
              None \<Rightarrow> Inl KeyError
            | Some w \<Rightarrow> bind_err (tick_labels id2word rest) (\<lambda>ws. Inr (w # ws)))
      else bind_err (tick_labels id2word rest) (\<lambda>ws. Inr (''<Res>'' # ws)))"

text \<open>Lines 122 to 136, the function after its assertion.\<close>

definition plot_body ::
  "nat ndarray \<Rightarrow> (nat \<times> 'v ndarray) list \<Rightarrow> (nat \<rightharpoonup> string) \<Rightarrow> (nat \<rightharpoonup> string) \<Rightarrow>
     py_error + 'v heatmap" where
  "plot_body encoder_inputs attn_weights en_id2word fr_id2word =
     (case collect_mats attn_weights ([], []) of
        (mats, dec_inputs) \<Rightarrow>
          bind_err (np_array mats) (\<lambda>arr.
            let mat = np_transpose arr in
            bind_err (tick_labels fr_id2word dec_inputs) (\<lambda>xlabels.
            bind_err (tick_labels en_id2word (ravel encoder_inputs)) (\<lambda>ylabels.
            Inr \<lparr>attention_mat = mat,
                 xticks = [0..<length arr],
                 yticks = [0..<length mat],
                 xticklabels = xlabels,
                 yticklabels = ylabels\<rparr>))))"

definition plot_attention_weights ::
  "nat ndarray \<Rightarrow> (nat \<times> 'v ndarray) list \<Rightarrow> (nat \<rightharpoonup> string) \<Rightarrow> (nat \<rightharpoonup> string) \<Rightarrow>
     py_error + 'v heatmap" where
  "plot_attention_weights encoder_inputs attn_weights en_id2word fr_id2word =
     (if length attn_weights \<noteq> 0
      then plot_body encoder_inputs attn_weights en_id2word fr_id2word
      else Inl AssertionError)"

section \<open>train\<close>

text \<open>\<^verbatim>\<open>range(start, stop, step)\<close>: a zero step raises \<^verbatim>\<open>ValueError\<close>.\<close>

definition py_range :: "int \<Rightarrow> int \<Rightarrow> int \<Rightarrow> py_error + int list" where
  "py_range start stop step =
     (if step = 0 then Inl ValueError
      else if 0 < step
      then Inr (map (\<lambda>k. start + int k * step) [0..<nat ((stop - start + step - 1) div step)])
      else Inr (map (\<lambda>k. start + int k * step) [0..<nat ((start - stop - step - 1) div (- step))]))"

text \<open>
  What \<^verbatim>\<open>train\<close> takes from Keras and from the script's globals. A batch of one-hot
  sequences is a list (samples) of lists (timesteps) of class vectors of type \<open>'h\<close>.
  \<^item> \<open>to_categorical a n\<close> is \<^verbatim>\<open>to_categorical(a, num_classes=n)\<close>;
  \<^item> \<open>train_on_batch m x y\<close> is the model after \<^verbatim>\<open>m.train_on_batch(x, y)\<close>;
  \<^item> \<open>evaluate m x y b\<close> is the loss \<^verbatim>\<open>m.evaluate(x, y, batch_size=b, verbose=0)\<close>;
  \<^item> \<open>en_vsize\<close> and \<open>fr_vsize\<close> are the globals of these names.
\<close>

record ('m, 'h, 'l) keras =
  to_categorical :: "nat list list \<Rightarrow> nat \<Rightarrow> 'h list list"
  train_on_batch :: "'m \<Rightarrow> 'h list list \<times> 'h list list \<Rightarrow> 'h list list \<Rightarrow> 'm"
  evaluate :: "'m \<Rightarrow> 'h list list \<times> 'h list list \<Rightarrow> 'h list list \<Rightarrow> int \<Rightarrow> 'l"
  en_vsize :: nat
  fr_vsize :: nat

text \<open>The calls made on the model, in the order they are made.\<close>

datatype 'h call =
    TrainOnBatch "'h list list \<times> 'h list list" "'h list list"
  | Evaluate "'h list list \<times> 'h list list" "'h list list"

text \<open>Lines 61 and 62: the rows \<^verbatim>\<open>seq[bi:bi + batch_size, :]\<close> and the one-hot batches made
  of them.\<close>

definition batch_rows :: "nat list list \<Rightarrow> int \<Rightarrow> int \<Rightarrow> nat list list" where
  "batch_rows seq batch_size bi = py_slice bi (bi + batch_size) seq"

definition en_batch :: "('m, 'h, 'l) keras \<Rightarrow> nat list list \<Rightarrow> int \<Rightarrow> int \<Rightarrow> 'h list list" where
  "en_batch k en_seq batch_size bi =
     to_categorical k (batch_rows en_seq batch_size bi) (en_vsize k)"

definition fr_batch :: "('m, 'h, 'l) keras \<Rightarrow> nat list list \<Rightarrow> int \<Rightarrow> int \<Rightarrow> 'h list list" where
  "fr_batch k fr_seq batch_size bi =
     to_categorical k (batch_rows fr_seq batch_size bi) (fr_vsize k)"

text \<open>The inner loop over the batch offsets; \<^verbatim>\<open>a[:, :-1, :]\<close> drops the last timestep
  of every sample and \<^verbatim>\<open>a[:, 1:, :]\<close> the first.\<close>

fun batch_loop ::
  "('m, 'h, 'l) keras \<Rightarrow> nat list list \<Rightarrow> nat list list \<Rightarrow> int \<Rightarrow> int list \<Rightarrow>
     'm \<times> 'l list \<times> 'h call list \<Rightarrow> 'm \<times> 'l list \<times> 'h call list" where
  "batch_loop k en_seq fr_seq batch_size [] acc = acc"
| "batch_loop k en_seq fr_seq batch_size (bi # rest) (full_model, losses, calls) =
     (let en_onehot_seq = en_batch k en_seq batch_size bi;
          fr_onehot_seq = fr_batch k fr_seq batch_size bi;
          x = (en_onehot_seq, map butlast fr_onehot_seq);
          y = map tl fr_onehot_seq;
          full_model' = train_on_batch k full_model x y;
          l = evaluate k full_model' x y batch_size
      in batch_loop k en_seq fr_seq batch_size rest
           (full_model', losses @ [l], calls @ [TrainOnBatch x y, Evaluate x y]))"

text \<open>The outer loop over the epochs. The third component collects what is printed:
  the epoch number and the losses whose mean is shown.\<close>

fun epoch_loop ::
  "('m, 'h, 'l) keras \<Rightarrow> nat list list \<Rightarrow> nat list list \<Rightarrow> int \<Rightarrow> int list \<Rightarrow>
     'm \<times> 'h call list \<times> (int \<times> 'l list) list \<Rightarrow>
     py_error + ('m \<times> 'h call list \<times> (int \<times> 'l list) list)" where
  "epoch_loop k en_seq fr_seq batch_size [] acc = Inr acc"
| "epoch_loop k en_seq fr_seq batch_size (ep # rest) (full_model, calls, printed) =
     bind_err (py_range 0 (int (length en_seq) - batch_size) batch_size) (\<lambda>offsets.
       case batch_loop k en_seq fr_seq batch_size offsets (full_model, [], calls) of
         (full_model', losses, calls') \<Rightarrow>
           epoch_loop k en_seq fr_seq batch_size rest
             (full_model', calls',
              if (ep + 1) mod 1 = 0 then printed @ [(ep + 1, losses)] else printed))"

definition train ::
  "('m, 'h, 'l) keras \<Rightarrow> 'm \<Rightarrow> nat list list \<Rightarrow> nat list list \<Rightarrow> int \<Rightarrow> int \<Rightarrow>
     py_error + ('m \<times> 'h call list \<times> (int \<times> 'l list) list)" where
  "train k full_model en_seq fr_seq batch_size n_epochs =
     bind_err (py_range 0 n_epochs 1) (\<lambda>epochs.
       epoch_loop k en_seq fr_seq batch_size epochs (full_model, [], []))"

text \<open>For stating what an epoch does: the two calls made for the batch at offset
  \<open>bi\<close>, and the calls of an epoch of \<open>n_batches\<close> batches, the \<open>j\<close>-th at offset
  \<open>j * batch_size\<close>.\<close>

definition batch_calls ::
  "('m, 'h, 'l) keras \<Rightarrow> nat list list \<Rightarrow> nat list list \<Rightarrow> int \<Rightarrow> int \<Rightarrow> 'h call list" where
  "batch_calls k en_seq fr_seq batch_size bi =
     [TrainOnBatch (en_batch k en_seq batch_size bi, map butlast (fr_batch k fr_seq batch_size bi))
        (map tl (fr_batch k fr_seq batch_size bi)),
      Evaluate (en_batch k en_seq batch_size bi, map butlast (fr_batch k fr_seq batch_size bi))
        (map tl (fr_batch k fr_seq batch_size bi))]"


section \<open>preprocess_data\<close>

datatype padding = Pre | Post

text \<open>\<^verbatim>\<open>np.max\<close> of a two-dimensional array raises \<^verbatim>\<open>ValueError\<close> when the array has no
  element.\<close>

definition np_max :: "nat list list \<Rightarrow> py_error + nat" where
  "np_max a = (if concat a = [] then Inl ValueError else Inr (fold max (concat a) 0))"

text \<open>
  \<^verbatim>\<open>preprocess_data\<close>, over the helper \<^verbatim>\<open>sents2sequences\<close> of \<^verbatim>\<open>utils/data_helper.py\<close>,
  which it takes as \<open>s2s tokenizer sentences reverse padding_type pad_length\<close>; an
  argument the call leaves to the helper's default is \<open>None\<close>. The two \<^verbatim>\<open>np.max\<close> are
  evaluated for the printed vocabulary sizes.
\<close>

definition preprocess_data ::
  "('k \<Rightarrow> string list \<Rightarrow> bool option \<Rightarrow> padding option \<Rightarrow> nat \<Rightarrow> nat list list) \<Rightarrow>
   'k \<Rightarrow> 'k \<Rightarrow> string list \<Rightarrow> string list \<Rightarrow> nat \<Rightarrow> nat \<Rightarrow>
     py_error + (nat list list \<times> nat list list)" where
  "preprocess_data s2s en_tokenizer fr_tokenizer en_text fr_text' en_timesteps fr_timesteps =
     (let en_seq = s2s en_tokenizer en_text (Some False) (Some Pre) en_timesteps;
          fr_seq = s2s fr_tokenizer fr_text' None None fr_timesteps
      in bind_err (np_max en_seq) (\<lambda>en_max.
         bind_err (np_max fr_seq) (\<lambda>fr_max.
         Inr (en_seq, fr_seq))))"

text \<open>
  Modelled from the spec: \<^verbatim>\<open>sents2sequences\<close> (and the \<^verbatim>\<open>pad_sequences\<close> it relies on) is
  not among the sources. The specification says of it only that it tokenizes and pads:
  the pipeline "turns raw sentence pairs into padded, one-hot-encoded tensors", each
  sentence being "padded or truncated to the fixed timestep length". \<open>texts_to_sequences\<close>
  is the tokenizer's map from a sentence to its word ids. A sequence that is too long
  is cut to the pad length, one that is too short is filled with zeros, in front or
  behind. The defaults are taken to be no reversal and padding behind; the lengths
  do not depend on them.
\<close>

definition pad_to :: "padding \<Rightarrow> nat \<Rightarrow> nat list \<Rightarrow> nat list" where
  "pad_to padding_type n s =
     (let trunc = drop (length s - n) s
      in case padding_type of
           Pre \<Rightarrow> replicate (n - length trunc) 0 @ trunc
         | Post \<Rightarrow> trunc @ replicate (n - length trunc) 0)"

definition sents2sequences ::
  "('k \<Rightarrow> string \<Rightarrow> nat list) \<Rightarrow> 'k \<Rightarrow> string list \<Rightarrow> bool option \<Rightarrow> padding option \<Rightarrow> nat \<Rightarrow>
     nat list list" where
  "sents2sequences texts_to_sequences tokenizer sentences reverse padding_type pad_length =
     (let encoded_text = map (texts_to_sequences tokenizer) sentences;
          preproc_text =
            map (pad_to (case padding_type of Some p \<Rightarrow> p | None \<Rightarrow> Post) pad_length)
              encoded_text
      in if reverse = Some True then map rev preproc_text else preproc_text)"

section \<open>The script run as main\<close>









section \<open>Concrete instances\<close>

text \<open>A small decoder over natural numbers: the decoder state counts down from 3, the
  predicted token is the state, and the attention is the encoder output plus the state.\<close>

definition demo_env :: "nat nmt_env" where
  "demo_env =
     \<lparr>en_onehot = (\<lambda>s. length (ravel s)),
      fr_onehot = length,
      encoder_predict = (\<lambda>x. (x, 3)),
      decoder_predict = (\<lambda>enc s x. (s, enc + s, s - 1)),
      argmax00 = (\<lambda>d. d),
      fr_index2word =
        (\<lambda>i. if i = 1 then Some ''chat'' else if i = 2 then Some ''le'' else Some ''UNK'')\<rparr>"

definition demo_en_seq :: "nat ndarray" where
  "demo_en_seq = Array [Array [Scalar 4, Scalar 5]]"

text \<open>A Keras stand-in that encodes every word id by itself, leaves the model as it is
  and reports the loss 0; five training pairs.\<close>

definition demo_keras :: "(unit, nat, nat) keras" where
  "demo_keras =
     \<lparr>to_categorical = (\<lambda>a n. a),
      train_on_batch = (\<lambda>m x y. m),
      evaluate = (\<lambda>m x y b. 0),
      en_vsize = 20, fr_vsize = 20\<rparr>"

definition demo_en_rows :: "nat list list" where
  "demo_en_rows = [[1], [2], [3], [4], [5]]"

definition demo_fr_rows :: "nat list list" where
  "demo_fr_rows = [[11, 12, 13], [21, 22, 23], [31, 32, 33], [41, 42, 43], [51, 52, 53]]"

text \<open>The attention weights of two decode steps, each of shape (1, 1, 2), over an
  encoder input of two word ids, and small dictionaries.\<close>

definition demo_attn :: "(nat \<times> nat ndarray) list" where
  "demo_attn =
     [(2, Array [Array [Array [Scalar 7, Scalar 8]]]),
      (1, Array [Array [Array [Scalar 5, Scalar 6]]])]"

definition demo_inputs :: "nat ndarray" where
  "demo_inputs = Array [Array [Scalar 0, Scalar 3]]"

definition demo_en_dict :: "nat \<rightharpoonup> string" where
  "demo_en_dict = [1 \<mapsto> ''the'', 3 \<mapsto> ''cat'']"

definition demo_fr_dict :: "nat \<rightharpoonup> string" where
  "demo_fr_dict = [1 \<mapsto> ''chat'', 2 \<mapsto> ''le'']"

text \<open>A tokenizer stand-in that maps every word to its length.\<close>

definition demo_t2s :: "unit \<Rightarrow> string \<Rightarrow> nat list" where
  "demo_t2s tokenizer sentence = map (\<lambda>w. length w) (py_split sentence)"


section \<open>Properties of get_data\<close>

lemma index_all_map:
  "\<forall>i\<in>set inds. i < length xs \<Longrightarrow> index_all xs inds = Inr (map ((!) xs) inds)"
  by (induction inds) auto

lemma perm_upt_distinct:
  assumes "mset inds = mset [0..<n]"
  shows "distinct inds" and "set inds = {0..<n}" and "length inds = n"
proof -
  show "distinct inds" using assms by (metis distinct_upt mset_eq_imp_distinct_iff)
  show "set inds = {0..<n}" using assms by (metis mset_eq_setD set_upt)
  show "length inds = n" using assms by (metis length_upt mset_eq_length minus_nat.diff_0)
qed

lemma get_data_value:
  assumes perm: "mset (shuffle seed [0..<length en_text]) = mset [0..<length en_text]"
      and len: "length fr_text_raw = length en_text"
      and ts: "0 \<le> train_size" "train_size \<le> int (length en_text)"
  shows "get_data shuffle en_text fr_text_raw train_size seed =
             Inr (map (\<lambda>i. en_text ! i) (take (nat train_size) (shuffle seed [0..<length en_text])),
                  map (\<lambda>i. wrap_fr (fr_text_raw ! i)) (take (nat train_size) (shuffle seed [0..<length en_text])),
                  map (\<lambda>i. en_text ! i) (drop (nat train_size) (shuffle seed [0..<length en_text])),
                  map (\<lambda>i. wrap_fr (fr_text_raw ! i)) (drop (nat train_size) (shuffle seed [0..<length en_text])))"
proof -
  define inds where "inds = shuffle seed [0..<length en_text]"
  define n where "n = nat train_size"
  have s: "set inds = {0..<length en_text}" and l: "length inds = length en_text"
    using perm_upt_distinct[OF perm[folded inds_def]] by auto
  have sb: "slice_bound (length inds) train_size = n"
    using ts by (simp add: slice_bound_def n_def l)
  have st: "slice_to train_size inds = take n inds" "slice_from train_size inds = drop n inds"
    by (simp_all add: slice_to_def slice_from_def sb)
  have in1: "\<forall>i\<in>set (take n inds). i < length en_text"
    using s by (metis atLeastLessThan_iff in_set_takeD)
  have in2: "\<forall>i\<in>set (drop n inds). i < length en_text"
    using s by (metis atLeastLessThan_iff in_set_dropD)
  have m1: "map ((!) (map wrap_fr fr_text_raw)) (take n inds) =
            map (\<lambda>i. wrap_fr (fr_text_raw ! i)) (take n inds)"
    using in1 len by auto
  have m2: "map ((!) (map wrap_fr fr_text_raw)) (drop n inds) =
            map (\<lambda>i. wrap_fr (fr_text_raw ! i)) (drop n inds)"
    using in2 len by auto
  show ?thesis
    unfolding inds_def[symmetric] n_def[symmetric]
    using in1 in2 len
    by (simp add: get_data_def Let_def inds_def[symmetric] st index_all_map bind_err_def m1 m2)
qed

text \<open>
  Claim C9. For a corpus of \<open>N\<close> parallel sentences, a shuffle that permutes the
  indices \<open>0..<N\<close> and \<open>0 \<le> train_size \<le> N\<close>, \<^verbatim>\<open>get_data\<close> returns: the shuffled indices
  split into \<open>train_inds\<close> (the first \<open>train_size\<close>) and \<open>test_inds\<close> (the other
  \<open>N - train_size\<close>), which are disjoint and together are all of \<open>0..<N\<close>; and the
  four returned lists are the English sentences and the wrapped French sentences at
  these indices, position by position, so the \<open>i\<close>-th English and the \<open>i\<close>-th French
  sentence of a set come from the same corpus index.
\<close>

theorem get_data_split:
  assumes perm: "mset (shuffle seed [0..<length en_text]) = mset [0..<length en_text]"
      and len: "length fr_text_raw = length en_text"
      and ts: "0 \<le> train_size" "train_size \<le> int (length en_text)"
  shows "\<exists>train_inds test_inds.
           train_inds @ test_inds = shuffle seed [0..<length en_text] \<and>
           length train_inds = nat train_size \<and>
           length test_inds = length en_text - nat train_size \<and>
           set train_inds \<inter> set test_inds = {} \<and>
           set train_inds \<union> set test_inds = {0..<length en_text} \<and>
           get_data shuffle en_text fr_text_raw train_size seed =
             Inr (map (\<lambda>i. en_text ! i) train_inds,
                  map (\<lambda>i. wrap_fr (fr_text_raw ! i)) train_inds,
                  map (\<lambda>i. en_text ! i) test_inds,
                  map (\<lambda>i. wrap_fr (fr_text_raw ! i)) test_inds)"
proof -
  define inds where "inds = shuffle seed [0..<length en_text]"
  define n where "n = nat train_size"
  have d: "distinct inds" and s: "set inds = {0..<length en_text}"
    and l: "length inds = length en_text"
    using perm_upt_distinct[OF perm[folded inds_def]] by auto
  have n: "n \<le> length en_text" using ts by (simp add: n_def)
  have disj: "set (take n inds) \<inter> set (drop n inds) = {}"
    using d by (metis append_take_drop_id distinct_append)
  have un: "set (take n inds) \<union> set (drop n inds) = {0..<length en_text}"
    using s by (metis append_take_drop_id set_append)
  note g = get_data_value[of shuffle seed en_text fr_text_raw train_size, OF perm len ts,
      folded inds_def n_def]
  show ?thesis
    apply (rule exI[of _ "take n inds"], rule exI[of _ "drop n inds"])
    using disj un g n l by (simp add: inds_def n_def)
qed

theorem get_data_split_witness:
  "mset (rev [0..<length [''one'', ''two'', ''three'']]) = mset [0..<length [''one'', ''two'', ''three'']] \<and>
   length [''un .'', ''deux.'', ''trois''] = length [''one'', ''two'', ''three''] \<and>
   (0::int) \<le> 2 \<and> (2::int) \<le> int (length [''one'', ''two'', ''three'']) \<and>
   get_data (\<lambda>seed xs. rev xs) [''one'', ''two'', ''three''] [''un .'', ''deux.'', ''trois''] 2 100 =
     Inr ([''three'', ''two''], [''sos trois eos .'', ''sos deuxeos .''],
          [''one''], [''sos un eos .'']) \<and>
   (\<exists>train_inds test_inds.
      train_inds @ test_inds = rev [0..<length [''one'', ''two'', ''three'']] \<and>
      length train_inds = nat 2 \<and>
      length test_inds = length [''one'', ''two'', ''three''] - nat 2 \<and>
      set train_inds \<inter> set test_inds = {} \<and>
      set train_inds \<union> set test_inds = {0..<length [''one'', ''two'', ''three'']} \<and>
      get_data (\<lambda>seed xs. rev xs) [''one'', ''two'', ''three''] [''un .'', ''deux.'', ''trois''] 2 100 =
        Inr (map (\<lambda>i. [''one'', ''two'', ''three''] ! i) train_inds,
             map (\<lambda>i. wrap_fr ([''un .'', ''deux.'', ''trois''] ! i)) train_inds,
             map (\<lambda>i. [''one'', ''two'', ''three''] ! i) test_inds,
             map (\<lambda>i. wrap_fr ([''un .'', ''deux.'', ''trois''] ! i)) test_inds))"
proof -
  have h1: "mset ((\<lambda>seed xs. rev xs) (100::int) [0..<length [''one'', ''two'', ''three'']]) =
            mset [0..<length [''one'', ''two'', ''three'']]" by simp
  have h2: "length [''un .'', ''deux.'', ''trois''] = length [''one'', ''two'', ''three'']" by simp
  have h3: "(0::int) \<le> 2" "(2::int) \<le> int (length [''one'', ''two'', ''three''])" by simp_all
  have ev: "get_data (\<lambda>seed xs. rev xs) [''one'', ''two'', ''three'']
              [''un .'', ''deux.'', ''trois''] 2 100 =
            Inr ([''three'', ''two''], [''sos trois eos .'', ''sos deuxeos .''],
                 [''one''], [''sos un eos .''])"
    by (simp add: get_data_def slice_to_def slice_from_def slice_bound_def bind_err_def
          wrap_fr_def endswith_dot_def upt_rec[of 0] upt_rec[of "Suc _"])
  from get_data_split[of "\<lambda>seed xs. rev xs" 100, OF h1 h2 h3] ev h2
  show ?thesis by simp
qed

text \<open>What holds of every wrapped sentence, and of those whose final period, if there
  is one, follows a space: the wrapped sentence begins with \<open>sos\<close> and a space and ends
  with \<open>eos .\<close>; in the second case its tokens are \<open>sos\<close>, the tokens in between,
  \<open>eos\<close> and the period.\<close>

lemma wrap_fr_prefix_suffix: "\<exists>body. wrap_fr sent = ''sos '' @ body @ ''eos .''"
proof (cases "endswith_dot sent")
  case True
  then show ?thesis by (auto simp: wrap_fr_def)
next
  case False
  then have "wrap_fr sent = ''sos '' @ (sent @ '' '') @ ''eos .''" by (simp add: wrap_fr_def)
  then show ?thesis by blast
qed

lemma split_acc_space_end:
  "split_acc cur (xs @ CHR '' '' # rest) = split_acc cur (xs @ '' '') @ split_acc [] rest"
  by (induction xs arbitrary: cur) (auto simp: is_space_def)

lemma py_split_sos: "py_split (''sos '' @ rest) = ''sos'' # py_split rest"
  by (simp add: py_split_def is_space_def)

lemma py_split_eos: "py_split ''eos .'' = [''eos'', ''.'']"
  by (simp add: py_split_def is_space_def)

lemma wrap_fr_tokens:
  assumes "\<not> endswith_dot sent \<or> (\<exists>body. sent = body @ '' .'')"
  shows "\<exists>ws. py_split (wrap_fr sent) = ''sos'' # ws @ [''eos'', ''.'']"
proof -
  from assms obtain body where w: "wrap_fr sent = ''sos '' @ body @ CHR '' '' # ''eos .''"
  proof
    assume "\<not> endswith_dot sent"
    then have "wrap_fr sent = ''sos '' @ sent @ CHR '' '' # ''eos .''" by (simp add: wrap_fr_def)
    then show ?thesis using that by blast
  next
    assume "\<exists>body. sent = body @ '' .''"
    then obtain body where b: "sent = body @ '' .''" by blast
    then have "endswith_dot sent" by (simp add: endswith_dot_def)
    then have "wrap_fr sent = ''sos '' @ body @ CHR '' '' # ''eos .''"
      using b by (simp add: wrap_fr_def butlast_append)
    then show ?thesis using that by blast
  qed
  have "py_split (wrap_fr sent) = ''sos'' # py_split (body @ CHR '' '' # ''eos .'')"
    unfolding w by (rule py_split_sos)
  also have "py_split (body @ CHR '' '' # ''eos .'') = py_split (body @ '' '') @ py_split ''eos .''"
    unfolding py_split_def by (rule split_acc_space_end)
  finally show ?thesis by (simp add: py_split_eos)
qed

text \<open>
  Claim C10. The claim asks that \<open>eos\<close> is a whitespace-delimited token of every
  wrapped sentence. A sentence whose final period follows a word directly loses the
  period and receives \<open>eos .\<close> without a space in between: for \<open>il fait froid.\<close> the
  wrapped sentence is \<open>sos il fait froideos .\<close>, whose tokens are \<open>sos\<close>, \<open>il\<close>, \<open>fait\<close>,
  \<open>froideos\<close> and the period; \<open>eos\<close> is not among them. The other branch of line 24
  does put a space before \<open>eos\<close>.
\<close>

theorem wrap_fr_attached_period:
  "wrap_fr ''il fait froid.'' = ''sos il fait froideos .'' \<and>
   py_split (wrap_fr ''il fait froid.'') = [''sos'', ''il'', ''fait'', ''froideos'', ''.''] \<and>
   ''eos'' \<notin> set (py_split (wrap_fr ''il fait froid.''))"
  by (simp add: wrap_fr_def endswith_dot_def py_split_def is_space_def)

section \<open>Properties of infer_nmt\<close>

lemma decode_step_Continue:
  assumes "decode_step env enc st = Continue st'"
  shows "\<exists>w. predicted env enc st \<noteq> 0 \<and>
           fr_index2word env (predicted env enc st) = Some w \<and>
           attention_weights st' = attention_weights st @ [(predicted env enc st, attended env enc st)] \<and>
           fr_text st' = fr_text st @ w @ '' ''"
  using assms
  by (auto simp: decode_step_def predicted_def attended_def Let_def split: prod.splits if_splits option.splits)

lemma decode_step_Break:
  assumes "decode_step env enc st = Break st'"
  shows "predicted env enc st = 0 \<and> attention_weights st' = attention_weights st \<and>
         fr_text st' = fr_text st"
  using assms
  by (auto simp: decode_step_def predicted_def Let_def split: prod.splits if_splits option.splits)

lemma decode_step_Raise:
  assumes "decode_step env enc st = Raise e"
  shows "e = KeyError \<and> predicted env enc st \<noteq> 0 \<and>
         fr_index2word env (predicted env enc st) = None"
  using assms
  by (auto simp: decode_step_def predicted_def Let_def split: prod.splits if_splits option.splits)

lemma decode_step_zero:
  "predicted env enc st = 0 \<Longrightarrow> \<exists>st'. decode_step env enc st = Break st'"
  by (auto simp: decode_step_def predicted_def Let_def split: prod.splits if_splits option.splits)

lemma after_steps_Suc_end:
  "after_steps env enc (Suc n) st =
     (case after_steps env enc n st of None \<Rightarrow> None
      | Some s \<Rightarrow> (case decode_step env enc s of Continue s' \<Rightarrow> Some s' | Break s' \<Rightarrow> None | Raise e \<Rightarrow> None))"
proof (induction n arbitrary: st)
  case 0
  show ?case by (cases "decode_step env enc st") simp_all
next
  case (Suc n)
  show ?case
  proof (cases "decode_step env enc st")
    case (Continue st1)
    have a: "after_steps env enc (Suc (Suc n)) st = after_steps env enc (Suc n) st1"
      using Continue by simp
    have b: "after_steps env enc (Suc n) st = after_steps env enc n st1"
      using Continue by simp
    show ?thesis unfolding a b by (rule Suc.IH)
  next
    case (Break st1)
    then show ?thesis by simp
  next
    case (Raise e)
    then show ?thesis by simp
  qed
qed

text \<open>How the loop over any list of indices ends, in terms of the states after its
  complete passes.\<close>

lemma decode_loop_cases:
  "(\<exists>st'. decode_loop env enc inds st = Exhausted st' \<and> after_steps env enc (length inds) st = Some st') \<or>
   (\<exists>k s st'. k < length inds \<and> after_steps env enc k st = Some s \<and>
        decode_step env enc s = Break st' \<and> decode_loop env enc inds st = Broke (inds ! k) st') \<or>
   (\<exists>k s e. k < length inds \<and> after_steps env enc k st = Some s \<and>
        decode_step env enc s = Raise e \<and> decode_loop env enc inds st = Raised (inds ! k) e)"
proof (induction inds arbitrary: st)
  case Nil
  then show ?case by simp
next
  case (Cons i inds)
  show ?case
  proof (cases "decode_step env enc st")
    case (Continue st1)
    from Cons.IH[of st1] show ?thesis
    proof (elim disjE exE conjE)
      fix st' assume "decode_loop env enc inds st1 = Exhausted st'" "after_steps env enc (length inds) st1 = Some st'"
      then show ?thesis using Continue by simp
    next
      fix k s st' assume "k < length inds" "after_steps env enc k st1 = Some s"
        "decode_step env enc s = Break st'" "decode_loop env enc inds st1 = Broke (inds ! k) st'"
      then have "Suc k < length (i # inds) \<and> after_steps env enc (Suc k) st = Some s \<and>
        decode_step env enc s = Break st' \<and> decode_loop env enc (i # inds) st = Broke ((i # inds) ! Suc k) st'"
        using Continue by simp
      then show ?thesis by blast
    next
      fix k s e assume "k < length inds" "after_steps env enc k st1 = Some s"
        "decode_step env enc s = Raise e" "decode_loop env enc inds st1 = Raised (inds ! k) e"
      then have "Suc k < length (i # inds) \<and> after_steps env enc (Suc k) st = Some s \<and>
        decode_step env enc s = Raise e \<and> decode_loop env enc (i # inds) st = Raised ((i # inds) ! Suc k) e"
        using Continue by simp
      then show ?thesis by blast
    qed
  next
    case (Break st1)
    then have "0 < length (i # inds) \<and> after_steps env enc 0 st = Some st \<and>
        decode_step env enc st = Break st1 \<and> decode_loop env enc (i # inds) st = Broke ((i # inds) ! 0) st1"
      by simp
    then show ?thesis by blast
  next
    case (Raise e)
    then have "0 < length (i # inds) \<and> after_steps env enc 0 st = Some st \<and>
        decode_step env enc st = Raise e \<and> decode_loop env enc (i # inds) st = Raised ((i # inds) ! 0) e"
      by simp
    then show ?thesis by blast
  qed
qed

lemma after_steps_prefix:
  "after_steps env enc n st = Some s \<Longrightarrow> k < n \<Longrightarrow>
     \<exists>s'. after_steps env enc k st = Some s' \<and> predicted env enc s' \<noteq> 0"
proof (induction n arbitrary: s)
  case 0
  then show ?case by simp
next
  case (Suc n)
  from Suc.prems(1) obtain s1 where s1: "after_steps env enc n st = Some s1"
    and c: "decode_step env enc s1 = Continue s"
    unfolding after_steps_Suc_end by (auto split: option.splits step_result.splits)
  show ?case
  proof (cases "k = n")
    case True
    then show ?thesis using s1 decode_step_Continue[OF c] by auto
  next
    case False
    then have "k < n" using Suc.prems(2) by simp
    then show ?thesis using Suc.IH[OF s1] by simp
  qed
qed

lemma after_steps_recorded:
  "after_steps env enc n st = Some s \<Longrightarrow>
     \<exists>new. length new = n \<and> attention_weights s = attention_weights st @ new \<and>
        list_all (\<lambda>(i, a). i \<noteq> 0 \<and> fr_index2word env i \<noteq> None) new \<and>
        fr_text s = fr_text st @ concat (map (\<lambda>(i, a). the (fr_index2word env i) @ '' '') new)"
proof (induction n arbitrary: s)
  case 0
  then show ?case by simp
next
  case (Suc n)
  from Suc.prems(1) obtain s1 where s1: "after_steps env enc n st = Some s1"
    and c: "decode_step env enc s1 = Continue s"
    unfolding after_steps_Suc_end by (auto split: option.splits step_result.splits)
  from Suc.IH[OF s1] obtain new where new: "length new = n"
     "attention_weights s1 = attention_weights st @ new"
     "list_all (\<lambda>(i, a). i \<noteq> 0 \<and> fr_index2word env i \<noteq> None) new"
     "fr_text s1 = fr_text st @ concat (map (\<lambda>(i, a). the (fr_index2word env i) @ '' '') new)"
    by blast
  from decode_step_Continue[OF c] obtain w where
    aw: "predicted env enc s1 \<noteq> 0" "fr_index2word env (predicted env enc s1) = Some w"
        "attention_weights s = attention_weights s1 @ [(predicted env enc s1, attended env enc s1)]"
        "fr_text s = fr_text s1 @ w @ '' ''" by blast
  show ?case
    apply (rule exI[of _ "new @ [(predicted env enc s1, attended env enc s1)]"])
    using new aw by simp
qed


lemma infer_init_empty:
  "infer_init env test_en_seq = (enc, st0) \<Longrightarrow> attention_weights st0 = [] \<and> fr_text st0 = []"
  by (auto simp: infer_init_def Let_def split: prod.splits)







text \<open>
  Claim C2. When every non-zero token id the decoder can predict is a key of
  \<open>fr_index2word\<close>, the loop of \<^verbatim>\<open>infer_nmt\<close> makes \<open>n \<le> 20\<close> complete passes, each of
  which predicted a non-zero token and recorded it, and then ends: if \<open>n < 20\<close>, by the
  \<^verbatim>\<open>break\<close> at loop index \<open>n\<close>, where the predicted token is \<open>0\<close>; otherwise because the
  range of 20 indices ran out. It ends early exactly when a \<open>0\<close> is predicted. In both
  cases the function returns the text and the attention weights of the state after
  the \<open>n\<close> complete passes: the pass that predicted \<open>0\<close> recorded nothing.
\<close>

theorem infer_nmt_loop_terminates:
  assumes cov: "vocab_covers env" and init: "infer_init env test_en_seq = (enc, st0)"
  shows "\<exists>n st. n \<le> 20 \<and> after_steps env enc n st0 = Some st \<and>
      (\<forall>k<n. \<exists>s. after_steps env enc k st0 = Some s \<and> predicted env enc s \<noteq> 0) \<and>
      length (attention_weights st) = n \<and>
      infer_nmt env test_en_seq = Inr (fr_text st, attention_weights st) \<and>
      (if n < 20
       then predicted env enc st = 0 \<and> (\<exists>st'. decode_loop env enc [0..<20] st0 = Broke n st')
       else decode_loop env enc [0..<20] st0 = Exhausted st)"
proof -
  have len: "length (attention_weights st) = n" if "after_steps env enc n st0 = Some st" for n st
  proof -
    from after_steps_recorded[OF that] obtain new where
      "length new = n" "attention_weights st = attention_weights st0 @ new" by blast
    then show ?thesis using infer_init_empty[OF init] by simp
  qed
  have pre: "\<forall>k<n. \<exists>s. after_steps env enc k st0 = Some s \<and> predicted env enc s \<noteq> 0"
    if "after_steps env enc n st0 = Some st" for n st
    using after_steps_prefix[OF that] by (intro allI impI)
  from decode_loop_cases[of env enc "[0..<20]" st0]
  consider
    (ex) st where "decode_loop env enc [0..<20] st0 = Exhausted st" "after_steps env enc 20 st0 = Some st"
  | (br) k s st' where "k < 20" "after_steps env enc k st0 = Some s" "decode_step env enc s = Break st'"
       "decode_loop env enc [0..<20] st0 = Broke k st'"
  | (ra) k s e where "k < 20" "after_steps env enc k st0 = Some s" "decode_step env enc s = Raise e"
    by (auto simp del: decode_loop.simps upt_Suc)
  then show ?thesis
  proof cases
    case ex
    have "infer_nmt env test_en_seq = Inr (fr_text st, attention_weights st)"
      using ex(1) init by (simp add: infer_nmt_def del: upt_Suc)
    then show ?thesis using ex len[OF ex(2)] pre[OF ex(2)]
      by (intro exI[of _ 20] exI[of _ st]) simp
  next
    case br
    from decode_step_Break[OF br(3)] have b: "predicted env enc s = 0"
      "attention_weights st' = attention_weights s" "fr_text st' = fr_text s" by auto
    have "infer_nmt env test_en_seq = Inr (fr_text s, attention_weights s)"
      using br(4) init b by (simp add: infer_nmt_def del: upt_Suc)
    then show ?thesis using br b len[OF br(2)] pre[OF br(2)]
      by (intro exI[of _ k] exI[of _ s]) simp
  next
    case ra
    from decode_step_Raise[OF ra(3)] have "predicted env enc s \<noteq> 0"
      "fr_index2word env (predicted env enc s) = None" by auto
    then have False using cov unfolding vocab_covers_def predicted_def by blast
    then show ?thesis ..
  qed
qed


theorem infer_nmt_loop_terminates_witness:
  "vocab_covers demo_env \<and>
   infer_init demo_env demo_en_seq =
     (2, \<lparr>dec_state = 3, test_fr_onehot_seq = 3, attention_weights = [], fr_text = []\<rparr>) \<and>
   (\<exists>n st. n \<le> 20 \<and>
      after_steps demo_env 2 n
        \<lparr>dec_state = 3, test_fr_onehot_seq = 3, attention_weights = [], fr_text = []\<rparr> = Some st \<and>
      (\<forall>k<n. \<exists>s. after_steps demo_env 2 k
        \<lparr>dec_state = 3, test_fr_onehot_seq = 3, attention_weights = [], fr_text = []\<rparr> = Some s \<and>
        predicted demo_env 2 s \<noteq> 0) \<and>
      length (attention_weights st) = n \<and>
      infer_nmt demo_env demo_en_seq = Inr (fr_text st, attention_weights st) \<and>
      (if n < 20
       then predicted demo_env 2 st = 0 \<and>
            (\<exists>st'. decode_loop demo_env 2 [0..<20]
               \<lparr>dec_state = 3, test_fr_onehot_seq = 3, attention_weights = [], fr_text = []\<rparr> =
               Broke n st')
       else decode_loop demo_env 2 [0..<20]
              \<lparr>dec_state = 3, test_fr_onehot_seq = 3, attention_weights = [], fr_text = []\<rparr> =
              Exhausted st))"
proof -
  have c: "vocab_covers demo_env"
    by (simp add: vocab_covers_def demo_env_def)
  have i: "infer_init demo_env demo_en_seq =
     (2, \<lparr>dec_state = 3, test_fr_onehot_seq = 3, attention_weights = [], fr_text = []\<rparr>)"
    by (simp add: infer_init_def demo_env_def demo_en_seq_def)
  from infer_nmt_loop_terminates[OF c i] c i show ?thesis
    by (intro conjI)
qed

section \<open>Properties of train\<close>


lemma py_range_Inl: "py_range a b c = Inl e \<Longrightarrow> e = ValueError"
  by (auto simp: py_range_def split: if_splits)

lemma py_range_epochs: "py_range 0 n 1 = Inr (map int [0..<nat n])"
  by (simp add: py_range_def)

lemma batch_loop_calls:
  "\<exists>m' ls. batch_loop k en fr B offs (m, losses, calls) =
      (m', losses @ ls, calls @ concat (map (batch_calls k en fr B) offs)) \<and> length ls = length offs"
proof (induction offs arbitrary: m losses calls)
  case Nil
  then show ?case by simp
next
  case (Cons bi offs)
  define x where "x = (en_batch k en B bi, map butlast (fr_batch k fr B bi))"
  define y where "y = map tl (fr_batch k fr B bi)"
  define m1 where "m1 = train_on_batch k m x y"
  define l where "l = evaluate k m1 x y B"
  from Cons.IH[of m1 "losses @ [l]" "calls @ [TrainOnBatch x y, Evaluate x y]"]
  obtain m' ls where
    r: "batch_loop k en fr B offs (m1, losses @ [l], calls @ [TrainOnBatch x y, Evaluate x y]) =
        (m', (losses @ [l]) @ ls, (calls @ [TrainOnBatch x y, Evaluate x y]) @ concat (map (batch_calls k en fr B) offs))"
    and ll: "length ls = length offs" by blast
  have "batch_loop k en fr B (bi # offs) (m, losses, calls) =
        (m', losses @ (l # ls), calls @ concat (map (batch_calls k en fr B) (bi # offs)))"
    using r by (simp add: Let_def x_def y_def m1_def l_def batch_calls_def)
  moreover have "length (l # ls) = length (bi # offs)" using ll by simp
  ultimately show ?case by blast
qed

lemma epoch_loop_Inl:
  "epoch_loop k en fr B eps acc = Inl e \<Longrightarrow> e = ValueError"
proof (induction eps arbitrary: acc)
  case Nil
  then show ?case by simp
next
  case (Cons ep eps)
  obtain m calls printed where acc: "acc = (m, calls, printed)" by (cases acc) auto
  show ?case
  proof (cases "py_range 0 (int (length en) - B) B")
    case (Inl e')
    then show ?thesis using Cons.prems py_range_Inl[OF Inl] by (simp add: acc bind_err_def)
  next
    case (Inr offs)
    then show ?thesis using Cons.prems Cons.IH
      by (auto simp: acc bind_err_def split: prod.splits)
  qed
qed

lemma epoch_loop_calls:
  assumes "py_range 0 (int (length en) - B) B = Inr offs"
  shows "\<exists>m' pr. epoch_loop k en fr B eps (m, calls, printed) =
      Inr (m', calls @ concat (replicate (length eps) (concat (map (batch_calls k en fr B) offs))),
           printed @ pr) \<and> map fst pr = map (\<lambda>ep. ep + 1) eps"
proof (induction eps arbitrary: m calls printed)
  case Nil
  then show ?case by simp
next
  case (Cons ep eps)
  from batch_loop_calls[of k en fr B offs m "[]" calls] obtain m1 ls where
    b: "batch_loop k en fr B offs (m, [], calls) = (m1, ls, calls @ concat (map (batch_calls k en fr B) offs))"
    by auto
  from Cons.IH[of m1 "calls @ concat (map (batch_calls k en fr B) offs)" "printed @ [(ep + 1, ls)]"]
  obtain m' pr where
    r: "epoch_loop k en fr B eps (m1, calls @ concat (map (batch_calls k en fr B) offs), printed @ [(ep + 1, ls)]) =
        Inr (m', (calls @ concat (map (batch_calls k en fr B) offs)) @
                 concat (replicate (length eps) (concat (map (batch_calls k en fr B) offs))),
             (printed @ [(ep + 1, ls)]) @ pr)"
    and p: "map fst pr = map (\<lambda>ep. ep + 1) eps" by blast
  have "epoch_loop k en fr B (ep # eps) (m, calls, printed) =
      Inr (m', calls @ concat (replicate (length (ep # eps)) (concat (map (batch_calls k en fr B) offs))),
           printed @ ((ep + 1, ls) # pr))"
    using r b assms by (simp add: bind_err_def)
  moreover have "map fst ((ep + 1, ls) # pr) = map (\<lambda>ep. ep + 1) (ep # eps)" using p by simp
  ultimately show ?case by blast
qed

lemma train_Inl: "train k m en fr B n = Inl e \<Longrightarrow> e = ValueError"
  by (auto simp: train_def py_range_epochs bind_err_def dest: epoch_loop_Inl)

lemma train_calls:
  assumes "py_range 0 (int (length en) - B) B = Inr offs"
  shows "\<exists>m' pr. train k m en fr B n =
      Inr (m', concat (replicate (nat n) (concat (map (batch_calls k en fr B) offs))), pr) \<and>
      map fst pr = map (\<lambda>e. int e + 1) [0..<nat n]"
proof -
  from epoch_loop_calls[OF assms, of k fr "map int [0..<nat n]" m "[]" "[]"]
  show ?thesis by (simp add: train_def py_range_epochs bind_err_def comp_def)
qed






lemma tl_butlast_nth: "Suc t < length (butlast xs) \<Longrightarrow> tl xs ! t = butlast xs ! Suc t"
  by (simp add: nth_tl nth_butlast)

lemma train_no_range:
  assumes "py_range 0 (int (length en) - B) B = Inl e"
      and "train k m en fr B n = Inr (m', calls, printed)"
  shows "calls = []"
proof (cases "nat n")
  case 0
  then show ?thesis using assms(2)
    by (simp add: train_def py_range_epochs bind_err_def)
next
  case (Suc n')
  then have "[0..<nat n] = 0 # [Suc 0..<nat n]" by (simp add: upt_rec)
  then show ?thesis using assms
    by (simp add: train_def py_range_epochs bind_err_def)
qed

lemma demo_train: "train demo_keras () demo_en_rows demo_fr_rows 2 1 =
     Inr ((),
      [TrainOnBatch ([[1], [2]], [[11, 12], [21, 22]]) [[12, 13], [22, 23]],
       Evaluate ([[1], [2]], [[11, 12], [21, 22]]) [[12, 13], [22, 23]],
       TrainOnBatch ([[3], [4]], [[31, 32], [41, 42]]) [[32, 33], [42, 43]],
       Evaluate ([[3], [4]], [[31, 32], [41, 42]]) [[32, 33], [42, 43]]],
      [(1, [0, 0])])"
  by (simp add: train_def py_range_def bind_err_def demo_keras_def demo_en_rows_def demo_fr_rows_def
        en_batch_def fr_batch_def batch_rows_def py_slice_def slice_bound_def Let_def
        upt_rec[of 0] upt_rec[of "Suc _"])





text \<open>
  Claim C5. Every \<^verbatim>\<open>train_on_batch\<close> call of \<^verbatim>\<open>train\<close> is made on a batch at some offset
  \<open>bi\<close>: the decoder input is the one-hot French batch at \<open>bi\<close> with the last timestep
  of every sample removed, the target is the same batch with the first timestep of
  every sample removed, and so, in every sample, the target at timestep \<open>t\<close> is the
  decoder input at timestep \<open>t + 1\<close> wherever the decoder input has one.
\<close>

theorem train_teacher_forcing:
  assumes ret: "train k m en_seq fr_seq batch_size n_epochs = Inr (m', calls, printed)"
      and call: "TrainOnBatch x y \<in> set calls"
  shows "\<exists>bi. x = (en_batch k en_seq batch_size bi, map butlast (fr_batch k fr_seq batch_size bi)) \<and>
           y = map tl (fr_batch k fr_seq batch_size bi) \<and>
           (\<forall>r<length (fr_batch k fr_seq batch_size bi). \<forall>t.
              Suc t < length (snd x ! r) \<longrightarrow> y ! r ! t = snd x ! r ! Suc t)"
proof (cases "py_range 0 (int (length en_seq) - batch_size) batch_size")
  case (Inl e)
  from train_no_range[OF Inl ret] call show ?thesis by simp
next
  case (Inr offs)
  from train_calls[OF Inr, of k m fr_seq n_epochs] ret
  have "calls = concat (replicate (nat n_epochs) (concat (map (batch_calls k en_seq fr_seq batch_size) offs)))"
    by auto
  with call obtain bi where "TrainOnBatch x y \<in> set (batch_calls k en_seq fr_seq batch_size bi)"
    by (auto split: if_splits)
  then have x: "x = (en_batch k en_seq batch_size bi, map butlast (fr_batch k fr_seq batch_size bi))"
    and y: "y = map tl (fr_batch k fr_seq batch_size bi)"
    by (auto simp: batch_calls_def)
  have "\<forall>r<length (fr_batch k fr_seq batch_size bi). \<forall>t.
              Suc t < length (snd x ! r) \<longrightarrow> y ! r ! t = snd x ! r ! Suc t"
    using x y by (simp add: tl_butlast_nth)
  with x y show ?thesis by blast
qed

theorem train_teacher_forcing_witness:
  "train demo_keras () demo_en_rows demo_fr_rows 2 1 =
     Inr ((),
      [TrainOnBatch ([[1], [2]], [[11, 12], [21, 22]]) [[12, 13], [22, 23]],
       Evaluate ([[1], [2]], [[11, 12], [21, 22]]) [[12, 13], [22, 23]],
       TrainOnBatch ([[3], [4]], [[31, 32], [41, 42]]) [[32, 33], [42, 43]],
       Evaluate ([[3], [4]], [[31, 32], [41, 42]]) [[32, 33], [42, 43]]],
      [(1, [0, 0])]) \<and>
   (\<exists>bi. ([[3], [4]], [[31, 32], [41, 42]]) =
           (en_batch demo_keras demo_en_rows 2 bi, map butlast (fr_batch demo_keras demo_fr_rows 2 bi)) \<and>
         [[32, 33], [42, 43]] = map tl (fr_batch demo_keras demo_fr_rows 2 bi) \<and>
         (\<forall>r<length (fr_batch demo_keras demo_fr_rows 2 bi). \<forall>t.
            Suc t < length (snd ([[3::nat], [4]], [[31::nat, 32], [41, 42]]) ! r) \<longrightarrow>
            [[32, 33], [42, 43]] ! r ! t = snd ([[3::nat], [4]], [[31::nat, 32], [41, 42]]) ! r ! Suc t))"
proof -
  have m: "TrainOnBatch ([[3], [4]], [[31, 32], [41, 42]]) [[32, 33], [42, 43]] \<in>
     set [TrainOnBatch ([[1], [2]], [[11, 12], [21, 22]]) [[12, 13], [22, 23]],
       Evaluate ([[1], [2]], [[11, 12], [21, 22]]) [[12, 13], [22, 23]],
       TrainOnBatch ([[3], [4]], [[31, 32], [41, 42]]) [[32, 33], [42, 43::nat]],
       Evaluate ([[3], [4]], [[31, 32], [41, 42]]) [[32, 33], [42, 43]]]"
    by simp
  from train_teacher_forcing[OF demo_train m] demo_train
  show ?thesis by (intro conjI)
qed

section \<open>Properties of preprocess_data\<close>

lemma length_pad_to: "length (pad_to p n s) = n"
  by (cases p) (auto simp: pad_to_def Let_def)

lemma sents2sequences_shape:
  "length (sents2sequences t2s tok sents rev_opt pad_opt n) = length sents"
  "\<forall>row\<in>set (sents2sequences t2s tok sents rev_opt pad_opt n). length row = n"
  by (auto simp: sents2sequences_def Let_def length_pad_to)

lemma np_max_Inl: "np_max a = Inl e \<Longrightarrow> e = ValueError"
  by (auto simp: np_max_def split: if_splits)

lemma np_max_nonempty:
  assumes "a \<noteq> []" and "\<forall>row\<in>set a. length row = n" and "0 < n"
  shows "\<exists>v. np_max a = Inr v"
proof -
  from assms obtain r rs where a: "a = r # rs" by (cases a) auto
  with assms have "r \<noteq> []" by auto
  then have "concat a \<noteq> []" using a by simp
  then show ?thesis by (simp add: np_max_def)
qed

lemma preprocess_data_Inl: "preprocess_data s2s et ft en fr n m = Inl e \<Longrightarrow> e = ValueError"
  by (auto simp: preprocess_data_def Let_def bind_err_def dest: np_max_Inl split: sum.splits)

text \<open>
  Claim C6, as stated, fails: \<^verbatim>\<open>preprocess_data\<close> does not return for every pair of
  sentence lists. For two empty lists the padded arrays have no element, and the
  \<^verbatim>\<open>np.max\<close> taken for the printed vocabulary size raises \<^verbatim>\<open>ValueError\<close>.
\<close>

theorem preprocess_data_empty:
  "preprocess_data (sents2sequences demo_t2s) () () [] [] 20 20 = Inl ValueError"
  by (simp add: preprocess_data_def sents2sequences_def np_max_def bind_err_def)

text \<open>
  Claim C6, amended. For every pair of non-empty sentence lists and positive timestep
  lengths, \<^verbatim>\<open>preprocess_data\<close> returns two arrays with one row per sentence, every row
  of the English array of length \<open>en_timesteps\<close> and every row of the French array of
  length \<open>fr_timesteps\<close>.
\<close>

theorem preprocess_data_shape:
  assumes "en_text \<noteq> []" and "fr_text' \<noteq> []" and "0 < en_timesteps" and "0 < fr_timesteps"
  shows "\<exists>en_seq fr_seq.
      preprocess_data (sents2sequences t2s) en_tokenizer fr_tokenizer en_text fr_text'
        en_timesteps fr_timesteps = Inr (en_seq, fr_seq) \<and>
      length en_seq = length en_text \<and> (\<forall>row\<in>set en_seq. length row = en_timesteps) \<and>
      length fr_seq = length fr_text' \<and> (\<forall>row\<in>set fr_seq. length row = fr_timesteps)"
proof -
  define en_seq where "en_seq = sents2sequences t2s en_tokenizer en_text (Some False) (Some Pre) en_timesteps"
  define fr_seq where "fr_seq = sents2sequences t2s fr_tokenizer fr_text' None None fr_timesteps"
  have e: "length en_seq = length en_text" "\<forall>row\<in>set en_seq. length row = en_timesteps"
    unfolding en_seq_def by (rule sents2sequences_shape)+
  have f: "length fr_seq = length fr_text'" "\<forall>row\<in>set fr_seq. length row = fr_timesteps"
    unfolding fr_seq_def by (rule sents2sequences_shape)+
  have "en_seq \<noteq> []" "fr_seq \<noteq> []" using e(1) f(1) assms(1,2) by auto
  then obtain v w where "np_max en_seq = Inr v" "np_max fr_seq = Inr w"
    using np_max_nonempty[OF _ e(2) assms(3)] np_max_nonempty[OF _ f(2) assms(4)] by blast
  then have "preprocess_data (sents2sequences t2s) en_tokenizer fr_tokenizer en_text fr_text'
        en_timesteps fr_timesteps = Inr (en_seq, fr_seq)"
    by (simp add: preprocess_data_def Let_def bind_err_def en_seq_def fr_seq_def)
  with e f show ?thesis by blast
qed

theorem preprocess_data_shape_witness:
  "[''a bb ccc dddd''] \<noteq> [] \<and> [''sos a bb eos .'', ''sos eos''] \<noteq> [] \<and> (0::nat) < 3 \<and> (0::nat) < 4 \<and>
   preprocess_data (sents2sequences demo_t2s) () () [''a bb ccc dddd'']
     [''sos a bb eos .'', ''sos eos''] 3 4 = Inr ([[2, 3, 4]], [[1, 2, 3, 1], [3, 3, 0, 0]]) \<and>
   (\<exists>en_seq fr_seq.
      preprocess_data (sents2sequences demo_t2s) () () [''a bb ccc dddd'']
        [''sos a bb eos .'', ''sos eos''] 3 4 = Inr (en_seq, fr_seq) \<and>
      length en_seq = length [''a bb ccc dddd''] \<and> (\<forall>row\<in>set en_seq. length row = 3) \<and>
      length fr_seq = length [''sos a bb eos .'', ''sos eos''] \<and> (\<forall>row\<in>set fr_seq. length row = 4))"
proof -
  have ev: "preprocess_data (sents2sequences demo_t2s) () () [''a bb ccc dddd'']
     [''sos a bb eos .'', ''sos eos''] 3 4 = Inr ([[2, 3, 4]], [[1, 2, 3, 1], [3, 3, 0, 0]])"
    by code_simp
  from preprocess_data_shape[of "[''a bb ccc dddd'']" "[''sos a bb eos .'', ''sos eos'']" 3 4
         demo_t2s "()" "()"] ev
  show ?thesis by simp
qed

section \<open>Properties of plot_attention_weights\<close>

lemma collect_mats_eq:
  "collect_mats aw (mats, ds) = (mats @ map (\<lambda>p. ravel (snd p)) aw, ds @ map fst aw)"
  by (induction aw arbitrary: mats ds) auto

lemma tick_labels_Inl: "tick_labels d xs = Inl e \<Longrightarrow> e = KeyError"
  by (induction xs arbitrary: e) (auto simp: bind_err_def split: if_splits option.splits sum.splits)

lemma tick_labels_Inr:
  "tick_labels d xs = Inr ls \<Longrightarrow> ls = map (\<lambda>i. if i \<noteq> 0 then the (d i) else ''<Res>'') xs"
  by (induction xs arbitrary: ls) (auto simp: bind_err_def split: if_splits option.splits sum.splits)

lemma tick_labels_total:
  "\<forall>i\<in>set xs. i \<noteq> 0 \<longrightarrow> d i \<noteq> None \<Longrightarrow>
     tick_labels d xs = Inr (map (\<lambda>i. if i \<noteq> 0 then the (d i) else ''<Res>'') xs)"
  by (induction xs) (auto simp: bind_err_def)

lemma np_array_Inl: "np_array mats = Inl e \<Longrightarrow> e = ValueError"
  by (auto simp: np_array_def split: if_splits)

lemma np_array_Inr: "np_array mats = Inr arr \<Longrightarrow> arr = mats \<and> (\<forall>m\<in>set mats. length m = length (hd mats))"
  by (auto simp: np_array_def list_all_iff split: if_splits)

lemma plot_body_Inl: "plot_body enc aw en fr = Inl e \<Longrightarrow> e = ValueError \<or> e = KeyError"
  by (auto simp: plot_body_def collect_mats_eq bind_err_def Let_def
        dest: np_array_Inl tick_labels_Inl split: sum.splits)

lemma plot_body_Inr:
  assumes "plot_body enc aw en fr = Inr h"
  shows "attention_mat h = np_transpose (map (\<lambda>p. ravel (snd p)) aw)"
    and "\<forall>p\<in>set aw. length (ravel (snd p)) = length (ravel (snd (hd aw)))"
    and "xticks h = [0..<length aw]"
    and "xticklabels h = map (\<lambda>p. if fst p \<noteq> 0 then the (fr (fst p)) else ''<Res>'') aw"
    and "yticklabels h = map (\<lambda>i. if i \<noteq> 0 then the (en i) else ''<Res>'') (ravel enc)"
proof -
  from assms obtain arr xl yl where
    a: "np_array (map (\<lambda>p. ravel (snd p)) aw) = Inr arr"
    and x: "tick_labels fr (map fst aw) = Inr xl"
    and y: "tick_labels en (ravel enc) = Inr yl"
    and h: "h = \<lparr>attention_mat = np_transpose arr, xticks = [0..<length arr],
                 yticks = [0..<length (np_transpose arr)], xticklabels = xl, yticklabels = yl\<rparr>"
    by (auto simp: plot_body_def collect_mats_eq bind_err_def Let_def split: sum.splits)
  from np_array_Inr[OF a] have arr: "arr = map (\<lambda>p. ravel (snd p)) aw"
    and rect: "\<forall>m\<in>set (map (\<lambda>p. ravel (snd p)) aw). length m = length (hd (map (\<lambda>p. ravel (snd p)) aw))"
    by auto
  show "attention_mat h = np_transpose (map (\<lambda>p. ravel (snd p)) aw)" using h arr by simp
  show "\<forall>p\<in>set aw. length (ravel (snd p)) = length (ravel (snd (hd aw)))"
    using rect by (cases aw) auto
  show "xticks h = [0..<length aw]" using h arr by simp
  show "xticklabels h = map (\<lambda>p. if fst p \<noteq> 0 then the (fr (fst p)) else ''<Res>'') aw"
    using h tick_labels_Inr[OF x] by (simp add: comp_def)
  show "yticklabels h = map (\<lambda>i. if i \<noteq> 0 then the (en i) else ''<Res>'') (ravel enc)"
    using h tick_labels_Inr[OF y] by simp
qed

lemma column_transpose:
  assumes "j < length rows" and "\<forall>m\<in>set rows. length m = length (hd rows)"
  shows "map (\<lambda>row. row ! j) (np_transpose rows) = rows ! j"
proof -
  have l: "length (rows ! j) = length (hd rows)" using assms by simp
  have "map (\<lambda>row. row ! j) (np_transpose rows) = map (\<lambda>i. rows ! j ! i) [0..<length (hd rows)]"
    using assms(1) by (simp add: np_transpose_def comp_def)
  also have "\<dots> = rows ! j" using l by (metis map_nth)
  finally show ?thesis .
qed

lemma plot_body_total:
  assumes "\<forall>p\<in>set aw. length (ravel (snd p)) = length (ravel (snd (hd aw)))"
      and "\<forall>p\<in>set aw. fst p \<noteq> 0 \<longrightarrow> fr (fst p) \<noteq> None"
      and "\<forall>i\<in>set (ravel enc). i \<noteq> 0 \<longrightarrow> en i \<noteq> None"
  shows "\<exists>h. plot_body enc aw en fr = Inr h"
proof -
  have a: "np_array (map (\<lambda>p. ravel (snd p)) aw) = Inr (map (\<lambda>p. ravel (snd p)) aw)"
    using assms(1) by (cases aw) (auto simp: np_array_def list_all_iff)
  have x: "tick_labels fr (map fst aw) = Inr (map (\<lambda>i. if i \<noteq> 0 then the (fr i) else ''<Res>'') (map fst aw))"
    using assms(2) by (intro tick_labels_total) auto
  have y: "tick_labels en (ravel enc) = Inr (map (\<lambda>i. if i \<noteq> 0 then the (en i) else ''<Res>'') (ravel enc))"
    using assms(3) by (intro tick_labels_total) auto
  show ?thesis
    by (simp add: plot_body_def collect_mats_eq bind_err_def Let_def a x y)
qed

lemma index_all_Inl: "index_all xs inds = Inl e \<Longrightarrow> e = IndexError"
  by (induction inds arbitrary: e) (auto split: if_splits sum.splits)

lemma get_data_Inl: "get_data shuffle en fr ts seed = Inl e \<Longrightarrow> e = IndexError"
  by (auto simp: get_data_def Let_def bind_err_def split: sum.splits dest: index_all_Inl)

lemma infer_nmt_Inl:
  assumes "infer_nmt env test_en_seq = Inl e"
  shows "e = KeyError"
proof -
  obtain enc st0 where i: "infer_init env test_en_seq = (enc, st0)"
    by (cases "infer_init env test_en_seq") auto
  from assms i obtain k where r: "decode_loop env enc [0..<20] st0 = Raised k e"
    by (auto simp: infer_nmt_def simp del: upt_Suc split: loop_exit.splits)
  from decode_loop_cases[of env enc "[0..<20]" st0] r
  obtain s where "decode_step env enc s = Raise e"
    by (auto simp del: upt_Suc decode_loop.simps)
  from decode_step_Raise[OF this] show ?thesis by simp
qed

text \<open>
  Claim C3. \<^verbatim>\<open>plot_attention_weights\<close> raises \<^verbatim>\<open>AssertionError\<close> if and only if its
  \<open>attention_weights\<close> argument is empty; for a non-empty argument it is the rest of
  the function, which never raises \<^verbatim>\<open>AssertionError\<close>. The assertion is the only one of
  the script: \<^verbatim>\<open>get_data\<close>, \<^verbatim>\<open>preprocess_data\<close>, \<^verbatim>\<open>train\<close> and \<^verbatim>\<open>infer_nmt\<close> never
  raise \<^verbatim>\<open>AssertionError\<close>, and no function catches an exception: every failure of a
  step is the failure of the function.
\<close>

theorem plot_assertion:
  "(plot_attention_weights enc aw en fr = Inl AssertionError \<longleftrightarrow> aw = []) \<and>
   plot_attention_weights enc aw en fr =
     (if aw = [] then Inl AssertionError else plot_body enc aw en fr) \<and>
   plot_body enc aw en fr \<noteq> Inl AssertionError \<and>
   get_data shuffle en_text fr_text_raw train_size seed \<noteq> Inl AssertionError \<and>
   preprocess_data s2s en_tokenizer fr_tokenizer texts texts' en_timesteps fr_timesteps
     \<noteq> Inl AssertionError \<and>
   train k m en_seq fr_seq batch_size n_epochs \<noteq> Inl AssertionError \<and>
   infer_nmt env test_en_seq \<noteq> Inl AssertionError"
proof -
  have b: "plot_body enc aw en fr \<noteq> Inl AssertionError"
    using plot_body_Inl[of enc aw en fr AssertionError] by auto
  have p: "plot_attention_weights enc aw en fr =
     (if aw = [] then Inl AssertionError else plot_body enc aw en fr)"
    by (simp add: plot_attention_weights_def)
  have g: "get_data shuffle en_text fr_text_raw train_size seed \<noteq> Inl AssertionError"
    using get_data_Inl[of shuffle en_text fr_text_raw train_size seed AssertionError] by auto
  have q: "preprocess_data s2s en_tokenizer fr_tokenizer texts texts' en_timesteps fr_timesteps
     \<noteq> Inl AssertionError"
    using preprocess_data_Inl[of s2s en_tokenizer fr_tokenizer texts texts' en_timesteps
      fr_timesteps AssertionError] by auto
  have t: "train k m en_seq fr_seq batch_size n_epochs \<noteq> Inl AssertionError"
    using train_Inl[of k m en_seq fr_seq batch_size n_epochs AssertionError] by auto
  have i: "infer_nmt env test_en_seq \<noteq> Inl AssertionError"
    using infer_nmt_Inl[of env test_en_seq AssertionError] by auto
  from b p g q t i show ?thesis by simp
qed

theorem plot_assertion_witness:
  "plot_attention_weights demo_inputs [] demo_en_dict demo_fr_dict =
     (Inl AssertionError :: py_error + nat heatmap) \<and>
   plot_attention_weights demo_inputs demo_attn demo_en_dict demo_fr_dict =
     Inr \<lparr>attention_mat = [[7, 5], [8, 6]], xticks = [0, 1], yticks = [0, 1],
          xticklabels = [''le'', ''chat''], yticklabels = [''<Res>'', ''cat'']\<rparr> \<and>
   (plot_attention_weights demo_inputs demo_attn demo_en_dict demo_fr_dict = Inl AssertionError
      \<longleftrightarrow> demo_attn = [])"
proof -
  have e: "plot_attention_weights demo_inputs [] demo_en_dict demo_fr_dict =
     (Inl AssertionError :: py_error + nat heatmap)"
    by (simp add: plot_attention_weights_def)
  have v: "plot_attention_weights demo_inputs demo_attn demo_en_dict demo_fr_dict =
     Inr \<lparr>attention_mat = [[7, 5], [8, 6]], xticks = [0, 1], yticks = [0, 1],
          xticklabels = [''le'', ''chat''], yticklabels = [''<Res>'', ''cat'']\<rparr>"
    by (simp add: plot_attention_weights_def plot_body_def demo_attn_def demo_inputs_def
          demo_en_dict_def demo_fr_dict_def np_array_def np_transpose_def bind_err_def
          upt_rec[of 0] upt_rec[of "Suc _"])
  from plot_assertion[of demo_inputs demo_attn demo_en_dict demo_fr_dict, THEN conjunct1] e v
  show ?thesis by (intro conjI)
qed

text \<open>
  Claim C7. When \<^verbatim>\<open>plot_attention_weights\<close> returns, its \<open>attention_weights\<close> argument
  is non-empty, the matrix it plots is the transpose of the flattened attention
  vectors stacked as rows, so column \<open>j\<close> of the matrix is the flattened attention
  vector of decode step \<open>j\<close>, and the labels of the x axis are the words of the decoded
  token ids in decode order, the id 0 shown as \<open><Res>\<close>. It returns for every non-empty
  argument whose attention vectors have one length and whose non-zero ids are keys of
  the dictionaries.
\<close>

theorem plot_attention_columns:
  "(aw \<noteq> [] \<and>
    (\<forall>p\<in>set aw. length (ravel (snd p)) = length (ravel (snd (hd aw)))) \<and>
    (\<forall>p\<in>set aw. fst p \<noteq> 0 \<longrightarrow> fr (fst p) \<noteq> None) \<and>
    (\<forall>i\<in>set (ravel enc). i \<noteq> 0 \<longrightarrow> en i \<noteq> None)
    \<longrightarrow> (\<exists>h. plot_attention_weights enc aw en fr = Inr h)) \<and>
   (\<forall>h. plot_attention_weights enc aw en fr = Inr h \<longrightarrow>
      aw \<noteq> [] \<and>
      attention_mat h = np_transpose (map (\<lambda>p. ravel (snd p)) aw) \<and>
      (\<forall>j<length aw. map (\<lambda>row. row ! j) (attention_mat h) = ravel (snd (aw ! j))) \<and>
      xticks h = [0..<length aw] \<and>
      xticklabels h = map (\<lambda>p. if fst p \<noteq> 0 then the (fr (fst p)) else ''<Res>'') aw)"
proof (intro conjI allI impI)
  assume a: "aw \<noteq> [] \<and>
    (\<forall>p\<in>set aw. length (ravel (snd p)) = length (ravel (snd (hd aw)))) \<and>
    (\<forall>p\<in>set aw. fst p \<noteq> 0 \<longrightarrow> fr (fst p) \<noteq> None) \<and>
    (\<forall>i\<in>set (ravel enc). i \<noteq> 0 \<longrightarrow> en i \<noteq> None)"
  then obtain h where "plot_body enc aw en fr = Inr h"
    using plot_body_total[of aw fr enc en] by blast
  then show "\<exists>h. plot_attention_weights enc aw en fr = Inr h"
    using a by (simp add: plot_attention_weights_def)
next
  fix h assume r: "plot_attention_weights enc aw en fr = Inr h"
  then have ne: "aw \<noteq> []" and b: "plot_body enc aw en fr = Inr h"
    by (auto simp: plot_attention_weights_def split: if_splits)
  note f = plot_body_Inr[OF b]
  show "aw \<noteq> []" by (rule ne)
  show "attention_mat h = np_transpose (map (\<lambda>p. ravel (snd p)) aw)" by (rule f(1))
  show "xticks h = [0..<length aw]" by (rule f(3))
  show "xticklabels h = map (\<lambda>p. if fst p \<noteq> 0 then the (fr (fst p)) else ''<Res>'') aw"
    by (rule f(4))
  fix j assume j: "j < length aw"
  have rect: "\<forall>m\<in>set (map (\<lambda>p. ravel (snd p)) aw). length m = length (hd (map (\<lambda>p. ravel (snd p)) aw))"
    using f(2) ne by (cases aw) auto
  have "map (\<lambda>row. row ! j) (np_transpose (map (\<lambda>p. ravel (snd p)) aw)) =
        map (\<lambda>p. ravel (snd p)) aw ! j"
    using j by (intro column_transpose[OF _ rect]) simp
  then show "map (\<lambda>row. row ! j) (attention_mat h) = ravel (snd (aw ! j))"
    using j f(1) by simp
qed

theorem plot_attention_columns_witness:
  "(\<exists>h. plot_attention_weights demo_inputs demo_attn demo_en_dict demo_fr_dict = Inr h) \<and>
   plot_attention_weights demo_inputs demo_attn demo_en_dict demo_fr_dict =
     Inr \<lparr>attention_mat = [[7, 5], [8, 6]], xticks = [0, 1], yticks = [0, 1],
          xticklabels = [''le'', ''chat''], yticklabels = [''<Res>'', ''cat'']\<rparr> \<and>
   map (\<lambda>row. row ! 0) [[7, 5], [8, 6]] = ravel (snd (demo_attn ! 0)) \<and>
   map (\<lambda>row. row ! 1) [[7, 5], [8, 6]] = ravel (snd (demo_attn ! 1)) \<and>
   [''le'', ''chat''] =
     map (\<lambda>p. if fst p \<noteq> 0 then the (demo_fr_dict (fst p)) else ''<Res>'') demo_attn"
proof -
  have v: "plot_attention_weights demo_inputs demo_attn demo_en_dict demo_fr_dict =
     Inr \<lparr>attention_mat = [[7, 5], [8, 6]], xticks = [0, 1], yticks = [0, 1],
          xticklabels = [''le'', ''chat''], yticklabels = [''<Res>'', ''cat'']\<rparr>"
    by (simp add: plot_attention_weights_def plot_body_def demo_attn_def demo_inputs_def
          demo_en_dict_def demo_fr_dict_def np_array_def np_transpose_def bind_err_def
          upt_rec[of 0] upt_rec[of "Suc _"])
  have pre: "demo_attn \<noteq> [] \<and>
    (\<forall>p\<in>set demo_attn. length (ravel (snd p)) = length (ravel (snd (hd demo_attn)))) \<and>
    (\<forall>p\<in>set demo_attn. fst p \<noteq> 0 \<longrightarrow> demo_fr_dict (fst p) \<noteq> None) \<and>
    (\<forall>i\<in>set (ravel demo_inputs). i \<noteq> 0 \<longrightarrow> demo_en_dict i \<noteq> None)"
    by (simp add: demo_attn_def demo_inputs_def demo_en_dict_def demo_fr_dict_def)
  note t = plot_attention_columns[of demo_attn demo_fr_dict demo_inputs demo_en_dict]
  from t[THEN conjunct1, THEN mp, OF pre]
  have ex: "\<exists>h. plot_attention_weights demo_inputs demo_attn demo_en_dict demo_fr_dict = Inr h" .
  note f = t[THEN conjunct2, THEN spec, THEN mp, OF v]
  from f[THEN conjunct2, THEN conjunct2, THEN conjunct1]
  have col: "\<forall>j<length demo_attn. map (\<lambda>row. row ! j) [[7, 5], [8, 6]] = ravel (snd (demo_attn ! j))"
    by simp
  from f[THEN conjunct2, THEN conjunct2, THEN conjunct2, THEN conjunct2]
  have lab: "[''le'', ''chat''] =
       map (\<lambda>p. if fst p \<noteq> 0 then the (demo_fr_dict (fst p)) else ''<Res>'') demo_attn"
    by simp
  have l: "0 < length demo_attn" "1 < length demo_attn" by (simp_all add: demo_attn_def)
  from col l have "map (\<lambda>row. row ! 0) [[7, 5], [8, 6]] = ravel (snd (demo_attn ! 0))"
    "map (\<lambda>row. row ! 1) [[7, 5], [8, 6]] = ravel (snd (demo_attn ! 1))" by blast+
  with ex v lab show ?thesis by (intro conjI)
qed

section \<open>Properties of the script run as main\<close>









end
